theory Spec2Isabelle
  imports Complex_Main
begin

section \<open>Utility helpers of openshift-client-python (\<open>packages/openshift/util.py\<close>)\<close>

text \<open>
  The theory embeds three functions of \<open>util.py\<close>: \<open>split_names\<close>,
  \<open>indent_lines\<close> and \<open>extract_numerical_value\<close> (the specification calls the
  last one \<open>parse_quantity\<close>).

  Strings are \<open>char list\<close>; the code is Python 2 and the strings it handles are
  byte strings (\<open>str\<close>), so a \<open>char\<close> is one byte. An absent argument
  (\<open>None\<close>) is the \<open>None\<close> of \<open>string option\<close>.
\<close>

subsection \<open>Python sequence primitives\<close>

text \<open>
  \<open>xs[i]\<close>: a negative index counts from the end; an index outside the sequence
  raises \<open>IndexError\<close>, which is \<open>None\<close> here and an error of the caller.
\<close>

definition py_index :: "'a list \<Rightarrow> int \<Rightarrow> 'a option" where
  "py_index xs i =
     (if 0 \<le> i then (if i < int (length xs) then Some (xs ! nat i) else None)
      else (if - i \<le> int (length xs) then Some (xs ! nat (int (length xs) + i)) else None))"

text \<open>
  \<open>xs[:k]\<close>: a slice never raises; a negative bound counts from the end and is
  clamped at the start of the sequence.
\<close>

definition py_slice_to :: "'a list \<Rightarrow> int \<Rightarrow> 'a list" where
  "py_slice_to xs k =
     (if 0 \<le> k then take (nat k) xs else take (nat (int (length xs) + k)) xs)"

subsection \<open>Python numbers\<close>

text \<open>
  A Python float is a binary64 value: it denotes a real number, an infinity or \<open>nan\<close>.
  The integer \<open>0\<close> and the float \<open>0.0\<close> compare equal in Python and are both
  \<open>Fin 0\<close> here, and an integer operand of a float operation is the float of the same
  value.
\<close>

datatype pyfloat = Fin real | PInf | NInf | NaN

text \<open>The finite binary64 values: a significand below \<open>2 ^ 53\<close> and an exponent in range.\<close>

definition representable64 :: "real \<Rightarrow> bool" where
  "representable64 x \<longleftrightarrow>
     (\<exists>m e. x = real_of_int m * 2 powi e \<and> \<bar>m\<bar> < 2 ^ 53 \<and> - 1074 \<le> e \<and> e \<le> 971)"

text \<open>
  Float arithmetic is the interpreter's, not code of this repository. Its rounding is the
  parameter \<open>float_round\<close>: the float that an operation returns when its exact result is
  the given real, which is the nearest binary64 value, an infinity on overflow, and zero or
  a subnormal on underflow. One fact of binary64 is written out, because it holds whatever
  the rounding mode: an integer of magnitude at most \<open>2 ^ 53\<close> is a binary64 value, so an
  operation with such an exact result returns it.
\<close>

definition exact64 :: "real \<Rightarrow> bool" where
  "exact64 x \<longleftrightarrow> x \<in> \<int> \<and> \<bar>x\<bar> \<le> 2 ^ 53"

definition float_result :: "(real \<Rightarrow> pyfloat) \<Rightarrow> real \<Rightarrow> pyfloat" where
  "float_result float_round x = (if exact64 x then Fin x else float_round x)"

definition inf_signed :: "real \<Rightarrow> pyfloat" where
  "inf_signed s = (if 0 < s then PInf else if s < 0 then NInf else NaN)"

text \<open>
  \<open>x * y\<close> on floats: the rounded exact product of two finite factors, where a product
  with 1 is the other factor; the IEEE 754 rules for infinities and \<open>nan\<close>.
\<close>

fun py_mul :: "(real \<Rightarrow> pyfloat) \<Rightarrow> pyfloat \<Rightarrow> pyfloat \<Rightarrow> pyfloat" where
  "py_mul float_round (Fin a) (Fin b) =
     (if a = 1 then Fin b else if b = 1 then Fin a else float_result float_round (a * b))"
| "py_mul float_round (Fin a) PInf = inf_signed a"
| "py_mul float_round (Fin a) NInf = inf_signed (- a)"
| "py_mul float_round PInf (Fin b) = inf_signed b"
| "py_mul float_round NInf (Fin b) = inf_signed (- b)"
| "py_mul float_round PInf PInf = PInf"
| "py_mul float_round PInf NInf = NInf"
| "py_mul float_round NInf PInf = NInf"
| "py_mul float_round NInf NInf = PInf"
| "py_mul float_round NaN y = NaN"
| "py_mul float_round x NaN = NaN"

text \<open>
  \<open>pow(b, e)\<close> on integers. For \<open>e \<ge> 0\<close> it is the integer \<open>b ^ e\<close>, which
  a multiplication with a float turns into a float: the integers that this program forms
  there are binary64 values (lemma \<open>table_powers_representable\<close>), so that step
  rounds nothing. For \<open>e < 0\<close> it is a float, the power that the C library computes
  for the floats of \<open>b\<close> and \<open>e\<close>: the parameter \<open>float_pow\<close>, a finite value
  because the bases of this program are the literals \<open>2\<close> and \<open>10\<close> (a zero base
  raises \<open>ZeroDivisionError\<close>, which is left out).
\<close>

definition py_pow :: "(int \<Rightarrow> int \<Rightarrow> real) \<Rightarrow> int \<Rightarrow> int \<Rightarrow> pyfloat" where
  "py_pow float_pow b e = (if 0 \<le> e then Fin (real_of_int (b ^ nat e)) else Fin (float_pow b e))"

subsection \<open>\<open>extract_numerical_value\<close>\<close>

datatype py_error = ValueError | IndexError

text \<open>
  The builtin \<open>float\<close> is not code of this repository: it is the parameter
  \<open>float_of\<close>, which is \<open>None\<close> where \<open>float\<close> raises \<open>ValueError\<close>
  (the specification's NumericConversionError). With \<open>float_round\<close> and
  \<open>float_pow\<close> it makes the three parameters of \<open>extract_numerical_value\<close>.
\<close>

definition to_float :: "(string \<Rightarrow> pyfloat option) \<Rightarrow> string \<Rightarrow> py_error + pyfloat" where
  "to_float float_of s = (case float_of s of None \<Rightarrow> Inl ValueError | Some x \<Rightarrow> Inr x)"

definition unit_scales :: "char \<Rightarrow> int option" where
  "unit_scales = map_of
     [(CHR ''n'', -3), (CHR ''u'', -2), (CHR ''m'', -1), (CHR ''k'', 1), (CHR ''K'', 1),
      (CHR ''M'', 2), (CHR ''G'', 3), (CHR ''T'', 4), (CHR ''P'', 5), (CHR ''E'', 6)]"

text \<open>The locals \<open>base\<close>, \<open>power_scale\<close> and \<open>unit_place\<close> after line 168.\<close>

record unit_ctx =
  base :: int
  power_scale :: int
  unit_place :: int

text \<open>
  Lines 158 to 168: the defaults, overwritten when the last character is \<open>i\<close>.
  \<open>None\<close> is the early \<open>return 0\<close> of line 165.
\<close>

definition unit_select :: "string \<Rightarrow> unit_ctx option" where
  "unit_select val =
     (if py_index val (-1) = Some (CHR ''i'') then
        (if length val < 3 then None
         else Some \<lparr>base = 2, power_scale = 10, unit_place = -2\<rparr>)
      else Some \<lparr>base = 10, power_scale = 3, unit_place = -1\<rparr>)"

text \<open>Lines 170 to 179: the pair of \<open>value\<close> and \<open>power\<close> (\<open>pw\<close>).\<close>

definition read_value ::
  "(string \<Rightarrow> pyfloat option) \<Rightarrow> string \<Rightarrow> int \<Rightarrow> char \<Rightarrow> py_error + (pyfloat \<times> int)" where
  "read_value float_of val place unit =
     (case unit_scales unit of
        Some pw \<Rightarrow>
          (if length (py_slice_to val place) = 0 then Inr (Fin 0, pw)
           else map_sum id (\<lambda>value. (value, pw)) (to_float float_of (py_slice_to val place)))
      | None \<Rightarrow>
          (if place = -2
           then map_sum id (\<lambda>value. (value, 0)) (to_float float_of (py_slice_to val (-1)))
           else map_sum id (\<lambda>value. (value, 0)) (to_float float_of val)))"

definition extract_numerical_value ::
  "(string \<Rightarrow> pyfloat option) \<Rightarrow> (real \<Rightarrow> pyfloat) \<Rightarrow> (int \<Rightarrow> int \<Rightarrow> real) \<Rightarrow>
     string option \<Rightarrow> py_error + pyfloat" where
  "extract_numerical_value float_of float_round float_pow v =
     (case v of
        None \<Rightarrow> Inr (Fin 0)
      | Some val \<Rightarrow>
          if val = [] then Inr (Fin 0)
          else (case unit_select val of
                  None \<Rightarrow> Inr (Fin 0)
                | Some c \<Rightarrow>
                    (case py_index val (unit_place c) of
                       None \<Rightarrow> Inl IndexError
                     | Some unit \<Rightarrow>
                         (case read_value float_of val (unit_place c) unit of
                            Inl e \<Rightarrow> Inl e
                          | Inr (value, pw) \<Rightarrow>
                              Inr (py_mul float_round value
                                     (py_pow float_pow (base c) (pw * power_scale c)))))))"

text \<open>
  The numeric prefix as the specification words it: the whole string, the string without
  a recognised unit letter and the \<open>i\<close> after it, or, when the letter before a final
  \<open>i\<close> is no unit, the string without that \<open>i\<close>. No prefix is selected for the
  empty string and for a string of fewer than three characters that ends in \<open>i\<close>.
\<close>

definition spec_numeric_prefix :: "string \<Rightarrow> string option" where
  "spec_numeric_prefix val =
     (if val = [] then None
      else if last val = CHR ''i'' then
        (if length val < 3 then None
         else if val ! (length val - 2) \<in> dom unit_scales
           then Some (take (length val - 2) val)
           else Some (butlast val))
      else if last val \<in> dom unit_scales then Some (butlast val)
      else Some val)"

subsection \<open>Python string primitives\<close>

text \<open>
  The characters that \<open>str.strip()\<close> removes from a byte string: space, tab, line feed,
  vertical tab, form feed and carriage return.
\<close>

definition py_isspace :: "char \<Rightarrow> bool" where
  "py_isspace c \<longleftrightarrow>
     c \<in> {CHR '' '', CHR 0x09, CHR ''\<newline>'', CHR 0x0B, CHR 0x0C, CHR 0x0D}"

definition strip :: "string \<Rightarrow> string" where
  "strip s = rev (dropWhile py_isspace (rev (dropWhile py_isspace s)))"

text \<open>
  \<open>s.split(sep)\<close> for a separator of one character: the pieces between the separators,
  empty pieces included, so the result is never the empty list.
\<close>

fun split_char :: "char \<Rightarrow> string \<Rightarrow> string list" where
  "split_char sep [] = [[]]"
| "split_char sep (c # cs) =
     (if c = sep then [] # split_char sep cs
      else (case split_char sep cs of
              [] \<Rightarrow> [[c]]
            | w # ws \<Rightarrow> (c # w) # ws))"

text \<open>\<open>sep.join(xs)\<close>.\<close>

fun join :: "string \<Rightarrow> string list \<Rightarrow> string" where
  "join sep [] = []"
| "join sep [x] = x"
| "join sep (x # y # ys) = x @ sep @ join sep (y # ys)"

text \<open>
  \<open>text.splitlines(True)\<close> on a byte string: a line ends after a line feed, after a
  carriage return, or after the pair of a carriage return and a line feed, and keeps that
  ending; what follows the last ending is a line only if it is not empty. The first
  argument is the part of the current line read so far.
\<close>

fun splitlines_from :: "string \<Rightarrow> string \<Rightarrow> string list" where
  "splitlines_from cur [] = (if cur = [] then [] else [cur])"
| "splitlines_from cur [c] = [cur @ [c]]"
| "splitlines_from cur (c # d # ds) =
     (if c = CHR 0x0D \<and> d = CHR ''\<newline>'' then (cur @ [c, d]) # splitlines_from [] ds
      else if c = CHR 0x0D \<or> c = CHR ''\<newline>'' then (cur @ [c]) # splitlines_from [] (d # ds)
      else splitlines_from (cur @ [c]) (d # ds))"

definition splitlines_keepends :: "string \<Rightarrow> string list" where
  "splitlines_keepends text = splitlines_from [] text"

subsection \<open>\<open>split_names\<close> and \<open>indent_lines\<close>\<close>

definition split_names :: "string option \<Rightarrow> string list" where
  "split_names output =
     (case output of
        None \<Rightarrow> []
      | Some out \<Rightarrow>
          map strip (filter (\<lambda>x. strip x \<noteq> []) (split_char (CHR ''\<newline>'') (strip out))))"

definition indent_lines :: "string \<Rightarrow> string \<Rightarrow> string" where
  "indent_lines text padding = join [] (map (\<lambda>line. padding @ line) (splitlines_keepends text))"

subsection \<open>The lines of a text, as the specification words them\<close>






text \<open>A string that is not empty and neither starts nor ends with whitespace.\<close>

definition trimmed :: "string \<Rightarrow> bool" where
  "trimmed x \<longleftrightarrow> x \<noteq> [] \<and> \<not> py_isspace (hd x) \<and> \<not> py_isspace (last x)"


section \<open>Properties of \<open>extract_numerical_value\<close>\<close>

subsection \<open>Indexing, slicing and arithmetic\<close>

lemma py_index_last: "xs \<noteq> [] \<Longrightarrow> py_index xs (-1) = Some (last xs)"
  by (cases xs rule: rev_cases) (simp_all add: py_index_def)

lemma py_index_before_last:
  "2 \<le> length xs \<Longrightarrow> py_index xs (-2) = Some (xs ! (length xs - 2))"
  by (simp add: py_index_def nat_diff_distrib')

lemma py_slice_to_minus1: "py_slice_to xs (-1) = butlast xs"
  by (simp add: py_slice_to_def butlast_conv_take nat_diff_distrib')

lemma py_slice_to_minus2: "py_slice_to xs (-2) = take (length xs - 2) xs"
  by (simp add: py_slice_to_def nat_diff_distrib')

lemma py_mul_one: "py_mul float_round x (Fin 1) = x"
  by (cases x) (simp_all add: inf_signed_def)


lemma py_mul_zero_fin: "py_mul float_round (Fin 0) (py_pow float_pow b e) = Fin 0"
  by (simp add: py_pow_def float_result_def exact64_def)

lemma py_pow_zero: "py_pow float_pow b 0 = Fin 1"
  by (simp add: py_pow_def)


text \<open>
  The shortcut of \<open>float_result\<close> is sound: an integer of magnitude at most
  \<open>2 ^ 53\<close> is a binary64 value.
\<close>

lemma exact64_representable:
  assumes "exact64 x"
  shows "representable64 x"
proof -
  from assms obtain k :: int where x: "x = real_of_int k" and k: "\<bar>k\<bar> \<le> 2 ^ 53"
    by (auto simp: exact64_def Ints_def)
  show ?thesis
  proof (cases "\<bar>k\<bar> < 2 ^ 53")
    case True
    then show ?thesis
      unfolding representable64_def x
      by (intro exI [of _ k] exI [of _ 0]) simp
  next
    case False
    with k have "\<bar>k\<bar> = 2 ^ 53"
      by simp
    then have "k = 2 ^ 53 \<or> k = - (2 ^ 53)"
      by linarith
    then show ?thesis
      unfolding representable64_def x
    proof
      assume "k = 2 ^ 53"
      then show "\<exists>m e. real_of_int k = real_of_int m * 2 powi e \<and> \<bar>m\<bar> < 2 ^ 53 \<and>
          - 1074 \<le> e \<and> e \<le> 971"
        by (intro exI [of _ 1] exI [of _ 53]) simp
    next
      assume "k = - (2 ^ 53)"
      then show "\<exists>m e. real_of_int k = real_of_int m * 2 powi e \<and> \<bar>m\<bar> < 2 ^ 53 \<and>
          - 1074 \<le> e \<and> e \<le> 971"
        by (intro exI [of _ "- 1"] exI [of _ 53]) simp
    qed
  qed
qed

text \<open>
  The integer powers that the function multiplies by are binary64 values, so that the float
  of such an integer is the integer itself: 1, the powers \<open>10 ^ (3 * e)\<close> and the
  powers \<open>2 ^ (10 * e)\<close> for the table entries \<open>e\<close> from 1 to 6.
\<close>

lemma table_powers_representable:
  assumes "unit_scales u = Some e" and "0 \<le> e"
  shows "representable64 (10 ^ nat (e * 3))" and "representable64 (2 ^ nat (e * 10))"
proof -
  from assms have e: "e \<in> {1, 2, 3, 4, 5, 6}"
    by (auto simp: unit_scales_def split: if_splits)
  have split: "(10::real) ^ k = real_of_int (5 ^ k) * 2 powi int k" for k :: nat
    by (simp add: power_int_def flip: power_mult_distrib)
  have ten: "representable64 (10 ^ (3 * n))" if "n \<le> 6" for n :: nat
  proof -
    have "(5::int) ^ (3 * n) \<le> 5 ^ 18"
      using that by (intro power_increasing) simp_all
    then have "\<bar>(5::int) ^ (3 * n)\<bar> < 2 ^ 53"
      by simp
    with that show ?thesis
      unfolding representable64_def
      by (intro exI [of _ "5 ^ (3 * n)"] exI [of _ "int (3 * n)"] conjI split) simp_all
  qed
  have two: "representable64 (2 ^ (10 * n))" if "n \<le> 6" for n :: nat
    unfolding representable64_def using that
    by (intro exI [of _ 1] exI [of _ "int (10 * n)"]) (simp add: power_int_def)
  from e show "representable64 (10 ^ nat (e * 3))"
    using ten [of "nat e"] by (auto simp: nat_mult_distrib mult.commute)
  from e show "representable64 (2 ^ nat (e * 10))"
    using two [of "nat e"] by (auto simp: nat_mult_distrib mult.commute)
qed


lemma unit_select_decimal:
  "val \<noteq> [] \<Longrightarrow> last val \<noteq> CHR ''i'' \<Longrightarrow>
   unit_select val = Some \<lparr>base = 10, power_scale = 3, unit_place = -1\<rparr>"
  by (simp add: unit_select_def py_index_last)

lemma unit_select_short:
  "val \<noteq> [] \<Longrightarrow> last val = CHR ''i'' \<Longrightarrow> length val < 3 \<Longrightarrow> unit_select val = None"
  by (simp add: unit_select_def py_index_last)

lemma unit_select_binary:
  "last val = CHR ''i'' \<Longrightarrow> 3 \<le> length val \<Longrightarrow>
   unit_select val = Some \<lparr>base = 2, power_scale = 10, unit_place = -2\<rparr>"
  by (cases "val = []") (simp_all add: unit_select_def py_index_last)

subsection \<open>The three paths of the function, each as one equation\<close>

lemma extract_short_binary:
  "val \<noteq> [] \<Longrightarrow> last val = CHR ''i'' \<Longrightarrow> length val < 3 \<Longrightarrow>
   extract_numerical_value float_of float_round float_pow (Some val) = Inr (Fin 0)"
  by (simp add: extract_numerical_value_def unit_select_short)

lemma extract_decimal:
  assumes "val \<noteq> []" and "last val \<noteq> CHR ''i''"
  shows "extract_numerical_value float_of float_round float_pow (Some val) =
     (case unit_scales (last val) of
        Some e \<Rightarrow>
          if butlast val = [] then Inr (Fin 0)
          else (case float_of (butlast val) of
                  None \<Rightarrow> Inl ValueError
                | Some p \<Rightarrow> Inr (py_mul float_round p (py_pow float_pow 10 (e * 3))))
      | None \<Rightarrow>
          (case float_of val of None \<Rightarrow> Inl ValueError | Some p \<Rightarrow> Inr p))"
proof -
  have sel: "extract_numerical_value float_of float_round float_pow (Some val) =
      (case read_value float_of val (-1) (last val) of
         Inl e \<Rightarrow> Inl e
       | Inr (value, pw) \<Rightarrow> Inr (py_mul float_round value (py_pow float_pow 10 (pw * 3))))"
    using assms
    by (simp add: extract_numerical_value_def unit_select_decimal py_index_last
        cong: sum.case_cong)
  show ?thesis
  proof (cases "unit_scales (last val)")
    case None
    then show ?thesis
      unfolding sel
      by (simp add: read_value_def to_float_def py_pow_zero py_mul_one split: option.splits)
  next
    case (Some e)
    show ?thesis
    proof (cases "butlast val = []")
      case True
      then show ?thesis
        unfolding sel
        by (simp add: Some read_value_def py_slice_to_minus1 py_mul_zero_fin)
    next
      case False
      then have "\<not> length val \<le> Suc 0"
        by (cases val) auto
      with False show ?thesis
        unfolding sel
        by (simp add: Some read_value_def py_slice_to_minus1 to_float_def split: option.splits)
    qed
  qed
qed

lemma extract_binary:
  assumes "last val = CHR ''i''" and "3 \<le> length val"
  shows "extract_numerical_value float_of float_round float_pow (Some val) =
     (case unit_scales (val ! (length val - 2)) of
        Some e \<Rightarrow>
          (case float_of (take (length val - 2) val) of
             None \<Rightarrow> Inl ValueError
           | Some p \<Rightarrow> Inr (py_mul float_round p (py_pow float_pow 2 (e * 10))))
      | None \<Rightarrow>
          (case float_of (butlast val) of None \<Rightarrow> Inl ValueError | Some p \<Rightarrow> Inr p))"
proof -
  from assms have ne: "val \<noteq> []" and two: "2 \<le> length val" by auto
  from assms have pre: "take (length val - 2) val \<noteq> []" by auto
  show ?thesis
    using ne pre
    by (simp add: extract_numerical_value_def unit_select_binary [OF assms]
        py_index_before_last [OF two] read_value_def py_slice_to_minus1 py_slice_to_minus2
        to_float_def py_pow_zero py_mul_one split: option.splits)
qed

subsection \<open>The claims\<close>



text \<open>
  C2. The function fails exactly when the numeric prefix it selects is not empty and
  \<open>float\<close> rejects it; the failure is the \<open>ValueError\<close> of \<open>float\<close>, which
  nothing catches, and no other error can occur. The string \<open>abc\<close> is such an input.
\<close>

theorem conversion_failure_iff:
  "((\<exists>e. extract_numerical_value float_of float_round float_pow v = Inl e) \<longleftrightarrow>
      (\<exists>val p. v = Some val \<and> spec_numeric_prefix val = Some p \<and> p \<noteq> [] \<and> float_of p = None)) \<and>
   (\<forall>e. extract_numerical_value float_of float_round float_pow v = Inl e \<longrightarrow> e = ValueError) \<and>
   (float_of ''abc'' = None \<longrightarrow> extract_numerical_value float_of float_round float_pow (Some ''abc'') = Inl ValueError)"
proof -
  have abc: "float_of ''abc'' = None \<longrightarrow> extract_numerical_value float_of float_round float_pow (Some ''abc'') = Inl ValueError"
    by (simp add: extract_decimal unit_scales_def)
  have main: "((\<exists>e. extract_numerical_value float_of float_round float_pow v = Inl e) \<longleftrightarrow>
      (\<exists>val p. v = Some val \<and> spec_numeric_prefix val = Some p \<and> p \<noteq> [] \<and> float_of p = None)) \<and>
   (\<forall>e. extract_numerical_value float_of float_round float_pow v = Inl e \<longrightarrow> e = ValueError)"
  proof (cases v)
    case None
    then show ?thesis by (simp add: extract_numerical_value_def)
  next
    case (Some val)
    consider (empty) "val = []"
      | (short) "val \<noteq> []" "last val = CHR ''i''" "length val < 3"
      | (binary) "last val = CHR ''i''" "3 \<le> length val"
      | (decimal) "val \<noteq> []" "last val \<noteq> CHR ''i''"
      by fastforce
    then show ?thesis
    proof cases
      case empty
      then show ?thesis
        by (simp add: Some extract_numerical_value_def spec_numeric_prefix_def)
    next
      case short
      then show ?thesis
        by (simp add: Some extract_short_binary spec_numeric_prefix_def)
    next
      case binary
      then have ne: "val \<noteq> []" "\<not> length val < 3" "butlast val \<noteq> []"
        "take (length val - 2) val \<noteq> []"
        by (auto simp: butlast_conv_take)
      show ?thesis
        using ne binary(1)
        by (auto simp: Some extract_binary [OF binary] spec_numeric_prefix_def dom_def
            split: option.splits)
    next
      case decimal
      then show ?thesis
        by (auto simp: Some extract_decimal spec_numeric_prefix_def dom_def
            split: option.splits)
    qed
  qed
  from main abc show ?thesis by blast
qed

theorem conversion_failure_iff_witness:
  "spec_numeric_prefix ''abc'' = Some ''abc'' \<and>
   extract_numerical_value Map.empty Fin (\<lambda>b e. real_of_int b powi e) (Some ''abc'') =
     Inl ValueError"
proof -
  let ?w = "\<lambda>b e. real_of_int b powi e"
  note inst = conversion_failure_iff
    [where float_of = Map.empty and float_round = Fin and float_pow = ?w and v = "Some ''abc''"]
  have pre: "spec_numeric_prefix ''abc'' = Some ''abc''"
    by (simp add: spec_numeric_prefix_def unit_scales_def)
  then have "\<exists>val p. Some ''abc'' = Some val \<and> spec_numeric_prefix val = Some p \<and> p \<noteq> [] \<and>
      Map.empty p = None"
    by simp
  with inst obtain e where e: "extract_numerical_value Map.empty Fin ?w (Some ''abc'') = Inl e"
    by blast
  with inst have "e = ValueError"
    by blast
  with e pre show ?thesis
    by simp
qed



text \<open>
  C4. For the empty string and for an absent argument the function returns 0 and raises
  nothing, whatever \<open>float\<close> does.
\<close>

theorem extract_empty_or_absent:
  "extract_numerical_value float_of float_round float_pow None = Inr (Fin 0) \<and>
   extract_numerical_value float_of float_round float_pow (Some []) = Inr (Fin 0)"
  by (simp add: extract_numerical_value_def)

text \<open>
  C5. A non-empty string of fewer than three characters that ends in \<open>i\<close> has the
  value 0. A longer string that ends in \<open>i\<close> is read with base 2 and power scale 10,
  and its unit letter is the character before the \<open>i\<close>.
\<close>

theorem short_binary_is_zero:
  "(val \<noteq> [] \<and> last val = CHR ''i'' \<and> length val < 3 \<longrightarrow>
      extract_numerical_value float_of float_round float_pow (Some val) = Inr (Fin 0)) \<and>
   (last val = CHR ''i'' \<and> 3 \<le> length val \<longrightarrow>
      unit_select val = Some \<lparr>base = 2, power_scale = 10, unit_place = -2\<rparr> \<and>
      py_index val (-2) = Some (val ! (length val - 2)) \<and>
      extract_numerical_value float_of float_round float_pow (Some val) =
        (case read_value float_of val (-2) (val ! (length val - 2)) of
           Inl e \<Rightarrow> Inl e
         | Inr (value, pw) \<Rightarrow> Inr (py_mul float_round value (py_pow float_pow 2 (pw * 10)))))"
proof (intro conjI impI)
  assume "val \<noteq> [] \<and> last val = CHR ''i'' \<and> length val < 3"
  then show "extract_numerical_value float_of float_round float_pow (Some val) = Inr (Fin 0)"
    by (simp add: extract_short_binary)
next
  assume a: "last val = CHR ''i'' \<and> 3 \<le> length val"
  then have ne: "val \<noteq> []" and two: "2 \<le> length val"
    by auto
  from a show sel: "unit_select val = Some \<lparr>base = 2, power_scale = 10, unit_place = -2\<rparr>"
    by (simp add: unit_select_binary)
  from two show idx: "py_index val (-2) = Some (val ! (length val - 2))"
    by (rule py_index_before_last)
  from ne show "extract_numerical_value float_of float_round float_pow (Some val) =
        (case read_value float_of val (-2) (val ! (length val - 2)) of
           Inl e \<Rightarrow> Inl e
         | Inr (value, pw) \<Rightarrow> Inr (py_mul float_round value (py_pow float_pow 2 (pw * 10))))"
    by (simp add: extract_numerical_value_def sel idx cong: sum.case_cong)
qed

theorem short_binary_is_zero_witness:
  "extract_numerical_value Map.empty Fin (\<lambda>b e. real_of_int b powi e) (Some ''Ki'') =
     Inr (Fin 0) \<and>
   unit_select ''1Ki'' = Some \<lparr>base = 2, power_scale = 10, unit_place = -2\<rparr> \<and>
   py_index ''1Ki'' (-2) = Some (CHR ''K'')"
  using short_binary_is_zero
      [where val = "''Ki''" and float_of = Map.empty and float_round = Fin
        and float_pow = "\<lambda>b e. real_of_int b powi e"]
    short_binary_is_zero
      [where val = "''1Ki''" and float_of = Map.empty and float_round = Fin
        and float_pow = "\<lambda>b e. real_of_int b powi e"]
  by simp

text \<open>
  C6. In a string of at least three characters that ends in \<open>i\<close>, when the character
  before the \<open>i\<close> is no unit letter, everything but the final \<open>i\<close> is the
  numeric prefix and the exponent is 0: the value is the number that \<open>float\<close> reads
  there, as 10 for \<open>10i\<close>.
\<close>

theorem unmatched_binary_fallback:
  "(\<forall>val. 3 \<le> length val \<longrightarrow> last val = CHR ''i'' \<longrightarrow>
      unit_scales (val ! (length val - 2)) = None \<longrightarrow>
      extract_numerical_value float_of float_round float_pow (Some val) =
        (case float_of (butlast val) of None \<Rightarrow> Inl ValueError | Some p \<Rightarrow> Inr p)) \<and>
   (float_of ''10'' = Some (Fin 10) \<longrightarrow>
      extract_numerical_value float_of float_round float_pow (Some ''10i'') = Inr (Fin 10))"
proof (intro conjI allI impI)
  fix val
  assume "3 \<le> length val" "last val = CHR ''i''" "unit_scales (val ! (length val - 2)) = None"
  then show "extract_numerical_value float_of float_round float_pow (Some val) =
        (case float_of (butlast val) of None \<Rightarrow> Inl ValueError | Some p \<Rightarrow> Inr p)"
    by (simp add: extract_binary)
next
  assume "float_of ''10'' = Some (Fin 10)"
  then show "extract_numerical_value float_of float_round float_pow (Some ''10i'') = Inr (Fin 10)"
    by (simp add: extract_binary unit_scales_def)
qed

theorem unmatched_binary_fallback_witness:
  "extract_numerical_value [''10'' \<mapsto> Fin 10] Fin (\<lambda>b e. real_of_int b powi e) (Some ''10i'') =
     Inr (Fin 10) \<and>
   extract_numerical_value [''10'' \<mapsto> Fin 10] Fin (\<lambda>b e. real_of_int b powi e) (Some ''1xi'') =
     Inl ValueError"
proof -
  let ?f = "[''10'' \<mapsto> Fin 10]"
  let ?w = "\<lambda>b e. real_of_int b powi e"
  note inst = unmatched_binary_fallback
    [where float_of = ?f and float_round = Fin and float_pow = ?w]
  have "3 \<le> length ''1xi''" "last ''1xi'' = CHR ''i''"
    "unit_scales (''1xi'' ! (length ''1xi'' - 2)) = None"
    by (simp_all add: unit_scales_def)
  with inst have "extract_numerical_value ?f Fin ?w (Some ''1xi'') =
      (case ?f (butlast ''1xi'') of None \<Rightarrow> Inl ValueError | Some p \<Rightarrow> Inr p)"
    by blast
  moreover have "?f ''10'' = Some (Fin 10)"
    by simp
  with inst have "extract_numerical_value ?f Fin ?w (Some ''10i'') = Inr (Fin 10)"
    by blast
  ultimately show ?thesis by simp
qed

text \<open>
  C7. When the unit letter is in the table and nothing stands before it, the value is 0 and
  no error is raised: so for every unit letter alone, as \<open>k\<close>, and for a unit letter
  followed by \<open>i\<close>.
\<close>

theorem bare_unit_is_zero:
  "(\<forall>val c unit. val \<noteq> [] \<longrightarrow> unit_select val = Some c \<longrightarrow>
      py_index val (unit_place c) = Some unit \<longrightarrow> unit \<in> dom unit_scales \<longrightarrow>
      py_slice_to val (unit_place c) = [] \<longrightarrow>
      extract_numerical_value float_of float_round float_pow (Some val) = Inr (Fin 0)) \<and>
   (\<forall>u \<in> dom unit_scales.
      extract_numerical_value float_of float_round float_pow (Some [u]) = Inr (Fin 0) \<and>
      extract_numerical_value float_of float_round float_pow (Some [u, CHR ''i'']) = Inr (Fin 0)) \<and>
   extract_numerical_value float_of float_round float_pow (Some ''k'') = Inr (Fin 0)"
proof (intro conjI allI impI ballI)
  fix val c unit
  assume ne: "val \<noteq> []" and sel: "unit_select val = Some c"
    and idx: "py_index val (unit_place c) = Some unit" and dom: "unit \<in> dom unit_scales"
    and pre: "py_slice_to val (unit_place c) = []"
  from dom obtain e where e: "unit_scales unit = Some e"
    by auto
  show "extract_numerical_value float_of float_round float_pow (Some val) = Inr (Fin 0)"
    using ne by (simp add: extract_numerical_value_def sel idx read_value_def e pre py_mul_zero_fin)
next
  fix u
  assume "u \<in> dom unit_scales"
  then obtain e where e: "unit_scales u = Some e"
    by auto
  then have "u \<noteq> CHR ''i''"
    by (auto simp: unit_scales_def)
  then show "extract_numerical_value float_of float_round float_pow (Some [u]) = Inr (Fin 0)"
    by (simp add: extract_decimal e)
  show "extract_numerical_value float_of float_round float_pow (Some [u, CHR ''i'']) = Inr (Fin 0)"
    by (simp add: extract_short_binary)
next
  show "extract_numerical_value float_of float_round float_pow (Some ''k'') = Inr (Fin 0)"
    by (simp add: extract_decimal unit_scales_def)
qed

theorem bare_unit_is_zero_witness:
  "extract_numerical_value Map.empty Fin (\<lambda>b e. real_of_int b powi e) (Some ''n'') = Inr (Fin 0) \<and>
   extract_numerical_value Map.empty Fin (\<lambda>b e. real_of_int b powi e) (Some ''E'') = Inr (Fin 0)"
proof -
  let ?w = "\<lambda>b e. real_of_int b powi e"
  note inst = bare_unit_is_zero
    [where float_of = Map.empty and float_round = Fin and float_pow = ?w]
  have n: "CHR ''n'' \<in> dom unit_scales"
    by (simp add: unit_scales_def)
  have "''E'' \<noteq> []" "unit_select ''E'' = Some \<lparr>base = 10, power_scale = 3, unit_place = -1\<rparr>"
    "py_index ''E'' (unit_place \<lparr>base = 10, power_scale = 3, unit_place = -1\<rparr>) = Some (CHR ''E'')"
    "CHR ''E'' \<in> dom unit_scales"
    "py_slice_to ''E'' (unit_place \<lparr>base = 10, power_scale = 3, unit_place = -1\<rparr>) = []"
    by (simp_all add: unit_select_def py_index_def py_slice_to_def unit_scales_def)
  with inst have "extract_numerical_value Map.empty Fin ?w (Some ''E'') = Inr (Fin 0)"
    by blast
  moreover from inst n
  have "extract_numerical_value Map.empty Fin ?w (Some [CHR ''n'']) = Inr (Fin 0)"
    by blast
  ultimately show ?thesis by simp
qed

section \<open>Properties of \<open>split_names\<close> and \<open>indent_lines\<close>\<close>

subsection \<open>\<open>strip\<close>\<close>

lemma strip_subset: "set (strip s) \<subseteq> set s"
  by (auto simp: strip_def dest!: set_dropWhileD)

lemma trimmed_strip:
  assumes "trimmed x"
  shows "strip x = x"
proof -
  from assms have "dropWhile py_isspace x = x"
    by (simp add: trimmed_def dropWhile_eq_self_iff)
  moreover from assms have "dropWhile py_isspace (rev x) = rev x"
    by (simp add: trimmed_def dropWhile_eq_self_iff hd_rev)
  ultimately show ?thesis
    by (simp add: strip_def)
qed

lemma strip_trimmed:
  assumes "strip x \<noteq> []"
  shows "trimmed (strip x)"
proof -
  define y where "y = dropWhile py_isspace x"
  define z where "z = dropWhile py_isspace (rev y)"
  have s: "strip x = rev z"
    by (simp add: strip_def y_def z_def)
  with assms have z: "z \<noteq> []"
    by simp
  then have y: "y \<noteq> []"
    by (auto simp: z_def)
  from z have hz: "\<not> py_isspace (hd z)"
    unfolding z_def by (rule hd_dropWhile)
  from y have hy: "\<not> py_isspace (hd y)"
    unfolding y_def by (rule hd_dropWhile)
  have "hd z \<in> set (rev y)"
    using z set_dropWhileD [of "hd z" py_isspace "rev y"] by (simp add: z_def)
  then have "last z = last (rev y)"
    using hz unfolding z_def by (rule dropWhile_last)
  with y have "last z = hd y"
    by (simp add: last_rev)
  with hy hz z show ?thesis
    by (simp add: trimmed_def s hd_rev last_rev)
qed

subsection \<open>\<open>split\<close> and \<open>join\<close>\<close>

lemma split_char_not_Nil: "split_char sep s \<noteq> []"
  by (induction s) (auto split: list.splits)

lemma split_char_no_sep: "x \<in> set (split_char sep s) \<Longrightarrow> sep \<notin> set x"
proof (induction s arbitrary: x)
  case Nil
  then show ?case by simp
next
  case (Cons c cs)
  then show ?case
    by (cases "split_char sep cs") (auto simp: split_char_not_Nil split: if_splits)
qed

lemma split_char_append:
  "sep \<notin> set x \<Longrightarrow> split_char sep (x @ sep # rest) = x # split_char sep rest"
  by (induction x) auto

lemma split_char_single: "sep \<notin> set x \<Longrightarrow> split_char sep x = [x]"
  by (induction x) auto

lemma split_char_join:
  "xs \<noteq> [] \<Longrightarrow> \<forall>x \<in> set xs. sep \<notin> set x \<Longrightarrow> split_char sep (join [sep] xs) = xs"
  by (induction "[sep]" xs rule: join.induct) (simp_all add: split_char_single split_char_append)

lemma join_trimmed:
  "xs \<noteq> [] \<Longrightarrow> \<forall>x \<in> set xs. trimmed x \<Longrightarrow> trimmed (join sep xs)"
proof (induction sep xs rule: join.induct)
  case (3 sep x y ys)
  then have "trimmed (join sep (y # ys))" and x: "trimmed x"
    by simp_all
  then show ?case
    using x by (simp add: trimmed_def)
qed simp_all

lemma join_Nil_sep: "join [] xs = concat xs"
  by (induction "[] :: string" xs rule: join.induct) simp_all

subsection \<open>Elements of \<open>split_names\<close>\<close>

lemma split_names_elem:
  assumes "x \<in> set (split_names (Some s))"
  shows "trimmed x \<and> CHR ''\<newline>'' \<notin> set x"
proof -
  from assms obtain y where y: "y \<in> set (split_char (CHR ''\<newline>'') (strip s))"
    and ne: "strip y \<noteq> []" and x: "x = strip y"
    by (auto simp: split_names_def)
  from y have "CHR ''\<newline>'' \<notin> set y"
    by (rule split_char_no_sep)
  with strip_subset [of y] have "CHR ''\<newline>'' \<notin> set x"
    unfolding x by blast
  moreover from ne have "trimmed x"
    unfolding x by (rule strip_trimmed)
  ultimately show ?thesis by simp
qed

lemma split_names_join:
  assumes "\<forall>x \<in> set xs. trimmed x \<and> CHR ''\<newline>'' \<notin> set x"
  shows "split_names (Some (join [CHR ''\<newline>''] xs)) = xs"
proof (cases "xs = []")
  case True
  then show ?thesis
    by (simp add: split_names_def strip_def)
next
  case False
  with assms have "trimmed (join [CHR ''\<newline>''] xs)"
    by (simp add: join_trimmed)
  then have "strip (join [CHR ''\<newline>''] xs) = join [CHR ''\<newline>''] xs"
    by (rule trimmed_strip)
  moreover from False assms have "split_char (CHR ''\<newline>'') (join [CHR ''\<newline>''] xs) = xs"
    by (simp add: split_char_join)
  moreover from assms have "filter (\<lambda>x. strip x \<noteq> []) xs = xs"
    by (auto simp: filter_id_conv trimmed_strip trimmed_def)
  moreover from assms have "map strip xs = xs"
    by (simp add: map_idI trimmed_strip)
  ultimately show ?thesis
    by (simp add: split_names_def)
qed

text \<open>
  C8. \<open>split_names(None)\<close> is the empty list, and every element of
  \<open>split_names(s)\<close> is a non-empty string that equals its own stripped form: it
  neither starts nor ends with whitespace.
\<close>

theorem split_names_elements:
  "split_names None = [] \<and>
   (\<forall>x \<in> set (split_names (Some s)). x \<noteq> [] \<and> strip x = x \<and>
      \<not> py_isspace (hd x) \<and> \<not> py_isspace (last x))"
proof (intro conjI ballI)
  show "split_names None = []"
    by (simp add: split_names_def)
next
  fix x
  assume "x \<in> set (split_names (Some s))"
  then have t: "trimmed x"
    by (simp add: split_names_elem)
  then show "x \<noteq> []" "\<not> py_isspace (hd x)" "\<not> py_isspace (last x)"
    by (simp_all add: trimmed_def)
  from t show "strip x = x"
    by (rule trimmed_strip)
qed

theorem split_names_elements_witness:
  "split_names (Some '' pod/a \<newline>\<newline>  svc/b c \<newline>'') = [''pod/a'', ''svc/b c''] \<and>
   ''svc/b c'' \<noteq> [] \<and> strip ''svc/b c'' = ''svc/b c'' \<and>
   \<not> py_isspace (hd ''svc/b c'') \<and> \<not> py_isspace (last ''svc/b c'')"
proof -
  have run: "split_names (Some '' pod/a \<newline>\<newline>  svc/b c \<newline>'') = [''pod/a'', ''svc/b c'']"
    by (simp add: split_names_def strip_def py_isspace_def)
  then have "''svc/b c'' \<in> set (split_names (Some '' pod/a \<newline>\<newline>  svc/b c \<newline>''))"
    by simp
  with split_names_elements [of "'' pod/a \<newline>\<newline>  svc/b c \<newline>''"] run show ?thesis
    by blast
qed

text \<open>
  C9. Joining the result of \<open>split_names\<close> with line feeds and splitting again gives
  the same list, for every string and for an absent argument. The proof never looks at
  which characters are whitespace.
\<close>

theorem split_names_rejoin:
  "split_names (Some (join [CHR ''\<newline>''] (split_names output))) = split_names output"
proof (cases "output")
  case None
  then show ?thesis
    by (simp add: split_names_def strip_def)
next
  case (Some s)
  have "\<forall>x \<in> set (split_names (Some s)). trimmed x \<and> CHR ''\<newline>'' \<notin> set x"
    by (simp add: split_names_elem)
  then show ?thesis
    unfolding Some by (rule split_names_join)
qed

subsection \<open>\<open>splitlines\<close> yields the lines of the text\<close>








lemma concat_splitlines_from: "concat (splitlines_from cur s) = cur @ s"
  by (induction cur s rule: splitlines_from.induct) simp_all














lemma splitlines_from_crlf_pair:
  "splitlines_from cur (CHR 0x0D # CHR ''\<newline>'' # s) =
   (cur @ [CHR 0x0D, CHR ''\<newline>'']) # splitlines_from [] s"
  by simp




subsection \<open>\<open>indent_lines\<close>\<close>

lemma length_indent_lines:
  "length (indent_lines text padding) =
   length text + length padding * length (splitlines_keepends text)"
proof -
  have "length (concat (map (\<lambda>line. padding @ line) ls)) =
      length (concat ls) + length padding * length ls" for ls :: "string list"
    by (induction ls) simp_all
  then show ?thesis
    by (simp add: indent_lines_def join_Nil_sep splitlines_keepends_def concat_splitlines_from)
qed



end
